theory Spec2Isabelle
  imports Complex_Main "HOL-Library.AList"
begin

section \<open>JavaScript numbers\<close>

text \<open>
  A JavaScript \<^verbatim>\<open>number\<close> is a finite value, one of the two infinities, or NaN.
  Finite arithmetic is taken exact (no rounding, no overflow to an infinity) and the
  sign of zero is not tracked; every other rule below is the IEEE 754 rule that the
  operators \<^verbatim>\<open>+ - * /\<close>, \<^verbatim>\<open>Math.min\<close>, \<^verbatim>\<open>Math.max\<close>, \<^verbatim>\<open><=\<close> and \<^verbatim>\<open>isNaN\<close> follow.
\<close>

datatype jsnum = NaN | NInf | Fin real | PInf

fun jneg :: "jsnum \<Rightarrow> jsnum" where
  "jneg NaN = NaN"
| "jneg NInf = PInf"
| "jneg PInf = NInf"
| "jneg (Fin a) = Fin (- a)"

fun jadd :: "jsnum \<Rightarrow> jsnum \<Rightarrow> jsnum" where
  "jadd (Fin a) (Fin b) = Fin (a + b)"
| "jadd NaN y = NaN"
| "jadd x NaN = NaN"
| "jadd PInf NInf = NaN"
| "jadd NInf PInf = NaN"
| "jadd PInf y = PInf"
| "jadd x PInf = PInf"
| "jadd NInf y = NInf"
| "jadd x NInf = NInf"

definition jsub :: "jsnum \<Rightarrow> jsnum \<Rightarrow> jsnum" where
  "jsub x y = jadd x (jneg y)"

fun jmul :: "jsnum \<Rightarrow> jsnum \<Rightarrow> jsnum" where
  "jmul (Fin a) (Fin b) = Fin (a * b)"
| "jmul NaN y = NaN"
| "jmul x NaN = NaN"
| "jmul (Fin a) PInf = (if a = 0 then NaN else if 0 < a then PInf else NInf)"
| "jmul (Fin a) NInf = (if a = 0 then NaN else if 0 < a then NInf else PInf)"
| "jmul PInf (Fin b) = (if b = 0 then NaN else if 0 < b then PInf else NInf)"
| "jmul NInf (Fin b) = (if b = 0 then NaN else if 0 < b then NInf else PInf)"
| "jmul PInf PInf = PInf"
| "jmul PInf NInf = NInf"
| "jmul NInf PInf = NInf"
| "jmul NInf NInf = PInf"

fun jdiv :: "jsnum \<Rightarrow> jsnum \<Rightarrow> jsnum" where
  "jdiv (Fin a) (Fin b) =
     (if b = 0 then (if a = 0 then NaN else if 0 < a then PInf else NInf)
      else Fin (a / b))"
| "jdiv NaN y = NaN"
| "jdiv x NaN = NaN"
| "jdiv (Fin a) PInf = Fin 0"
| "jdiv (Fin a) NInf = Fin 0"
| "jdiv PInf (Fin b) = (if 0 \<le> b then PInf else NInf)"
| "jdiv NInf (Fin b) = (if 0 \<le> b then NInf else PInf)"
| "jdiv PInf PInf = NaN"
| "jdiv PInf NInf = NaN"
| "jdiv NInf PInf = NaN"
| "jdiv NInf NInf = NaN"

text \<open>\<^verbatim>\<open>Math.min\<close> and \<^verbatim>\<open>Math.max\<close> return NaN as soon as one argument is NaN.\<close>

fun jmin :: "jsnum \<Rightarrow> jsnum \<Rightarrow> jsnum" where
  "jmin (Fin a) (Fin b) = Fin (min a b)"
| "jmin NaN y = NaN"
| "jmin x NaN = NaN"
| "jmin NInf y = NInf"
| "jmin x NInf = NInf"
| "jmin PInf y = y"
| "jmin x PInf = x"

fun jmax :: "jsnum \<Rightarrow> jsnum \<Rightarrow> jsnum" where
  "jmax (Fin a) (Fin b) = Fin (max a b)"
| "jmax NaN y = NaN"
| "jmax x NaN = NaN"
| "jmax PInf y = PInf"
| "jmax x PInf = PInf"
| "jmax NInf y = y"
| "jmax x NInf = x"

text \<open>The comparison \<^verbatim>\<open>x <= y\<close>: false whenever an operand is NaN.\<close>

fun jle :: "jsnum \<Rightarrow> jsnum \<Rightarrow> bool" where
  "jle (Fin a) (Fin b) = (a \<le> b)"
| "jle NaN y = False"
| "jle x NaN = False"
| "jle NInf y = True"
| "jle x PInf = True"
| "jle PInf y = False"
| "jle x NInf = False"

definition isNaN :: "jsnum \<Rightarrow> bool" where
  "isNaN x = (x = NaN)"

text \<open>A number is falsy exactly when it is zero or NaN.\<close>

definition truthy :: "jsnum \<Rightarrow> bool" where
  "truthy x = (x \<noteq> NaN \<and> x \<noteq> Fin 0)"

text \<open>
  A numeric field of a row may be absent (\<^verbatim>\<open>undefined\<close>, here \<open>None\<close>).  The idiom
  \<^verbatim>\<open>field || d\<close> yields the field when it is present and truthy, and \<open>d\<close> otherwise.
\<close>

definition orElse :: "jsnum option \<Rightarrow> jsnum \<Rightarrow> jsnum" where
  "orElse f d = (case f of None \<Rightarrow> d | Some x \<Rightarrow> if truthy x then x else d)"

text \<open>
  A property of a plain object that the code fills with numbers holds a number, or a value
  that is not a number: a function or object inherited from \<^verbatim>\<open>Object.prototype\<close>, or a
  string that \<^verbatim>\<open>+\<close> built from one.  Such a value is truthy, \<^verbatim>\<open>+\<close> appends to it as
  to a string, and it converts to NaN where a number is needed.
\<close>

datatype jsval = Num jsnum | NotNum

text \<open>\<^verbatim>\<open>v || 0\<close> on a property that was read, \<^verbatim>\<open>v + x\<close> and the conversion to a number.\<close>

definition orZero :: "jsval option \<Rightarrow> jsval" where
  "orZero v =
     (case v of
        None \<Rightarrow> Num (Fin 0)
      | Some (Num x) \<Rightarrow> if truthy x then Num x else Num (Fin 0)
      | Some NotNum \<Rightarrow> NotNum)"

definition jplus :: "jsval \<Rightarrow> jsnum \<Rightarrow> jsval" where
  "jplus v x = (case v of Num a \<Rightarrow> Num (jadd a x) | NotNum \<Rightarrow> NotNum)"

definition toNumber :: "jsval \<Rightarrow> jsnum" where
  "toNumber v = (case v of Num a \<Rightarrow> a | NotNum \<Rightarrow> NaN)"

section \<open>Data model (types.ts)\<close>

record InstitutionMetrics =
  date :: string
  institution_id :: string
  total_assets :: "jsnum option"
  leverage_ratio :: "jsnum option"
  liquidity_ratio :: "jsnum option"
  roe :: "jsnum option"
  cds_spread :: "jsnum option"

text \<open>
  \<^verbatim>\<open>Institution extends InstitutionMetrics\<close>.  The presentation fields \<^verbatim>\<open>name\<close>,
  \<^verbatim>\<open>type\<close> and \<^verbatim>\<open>sector\<close> are read by no operation modelled here and are left out.
  \<^verbatim>\<open>pagerank\<close> holds whatever \<^verbatim>\<open>nodeVolumes[id] || 0\<close> yields.
\<close>

record Institution = InstitutionMetrics +
  riskScore :: jsnum
  pagerank :: jsval
  centrality :: jsnum

record Exposure =
  source :: string
  target :: string
  amount :: "jsnum option"
  collateral :: "jsnum option"

record ExposureNetwork =
  date :: string
  creditor_id :: string
  debtor_id :: string
  exposure_amount :: "jsnum option"
  collateral_value :: "jsnum option"

record MarketData =
  date :: string
  vix_index :: "jsnum option"
  yield_curve_slope :: "jsnum option"
  gdp_growth :: "jsnum option"

section \<open>Cascade simulation (runSimulation)\<close>

text \<open>
  The per-run state built from the institutions list; its field \<^verbatim>\<open>id\<close> is \<open>sid\<close> here.
\<close>

record SimState =
  sid :: string
  equity :: jsnum
  assets :: jsnum

record SimResult =
  failedNodes :: "string list"
  rounds :: "string list list"
  totalLoss :: jsnum
  depth :: nat

text \<open>
  \<^verbatim>\<open>institutions.map(i => ({ id: i.institution_id,
       equity: (i.total_assets || 100) / (i.leverage_ratio || 15),
       assets: i.total_assets || 0 }))\<close>
\<close>

definition initEquity :: "Institution \<Rightarrow> jsnum" where
  "initEquity i = jdiv (orElse (total_assets i) (Fin 100)) (orElse (leverage_ratio i) (Fin 15))"

definition initState :: "Institution list \<Rightarrow> SimState list" where
  "initState institutions =
     map (\<lambda>i. \<lparr>sid = institution_id i, equity = initEquity i,
               assets = orElse (total_assets i) (Fin 0)\<rparr>) institutions"

text \<open>
  \<^verbatim>\<open>creditor.equity -= loss\<close> mutates the object returned by
  \<^verbatim>\<open>state.find(s => s.id === link.source)\<close>, the first entry with that id.
\<close>

fun subEquity :: "string \<Rightarrow> jsnum \<Rightarrow> SimState list \<Rightarrow> SimState list" where
  "subEquity c loss [] = []"
| "subEquity c loss (s # ss) =
     (if sid s = c then s\<lparr>equity := jsub (equity s) loss\<rparr> # ss
      else s # subEquity c loss ss)"

text \<open>
  The set \<^verbatim>\<open>failed\<close> is kept as the list of its elements in insertion order (the order
  a JavaScript \<^verbatim>\<open>Set\<close> iterates in).  The loop state of one round is the triple of
  \<^verbatim>\<open>failed\<close>, \<^verbatim>\<open>state\<close> and \<^verbatim>\<open>nextFailures\<close>.
\<close>

type_synonym roundState = "string list \<times> SimState list \<times> string list"

text \<open>The body of \<^verbatim>\<open>affectedLinks.forEach(link => ...)\<close>.\<close>

definition processLink :: "jsnum \<Rightarrow> roundState \<Rightarrow> Exposure \<Rightarrow> roundState" where
  "processLink shock st link =
     (case st of (failed, state, nextFailures) \<Rightarrow>
        if source link \<in> set failed then st
        else (case find (\<lambda>s. sid s = source link) state of
                None \<Rightarrow> st
              | Some creditor \<Rightarrow>
                  let loss = jmul (orElse (amount link) (Fin 0)) shock;
                      state' = subEquity (source link) loss state
                  in if jle (jsub (equity creditor) loss) (Fin 0)
                     then (failed @ [source link], state', nextFailures @ [source link])
                     else (failed, state', nextFailures)))"

text \<open>The body of \<^verbatim>\<open>currentFailed.forEach(fId => ...)\<close>.\<close>

definition processFailed :: "Exposure list \<Rightarrow> jsnum \<Rightarrow> roundState \<Rightarrow> string \<Rightarrow> roundState" where
  "processFailed exposures shock st fId =
     foldl (processLink shock) st (filter (\<lambda>e. target e = fId) exposures)"

definition processRound :: "Exposure list \<Rightarrow> jsnum \<Rightarrow> string list \<Rightarrow> string list \<Rightarrow> SimState list \<Rightarrow> roundState" where
  "processRound exposures shock currentFailed failed state =
     foldl (processFailed exposures shock) (failed, state, []) currentFailed"

text \<open>
  The \<^verbatim>\<open>while (currentFailed.length > 0 && depth < 20)\<close> loop.  It returns the final
  \<^verbatim>\<open>failed\<close>, \<^verbatim>\<open>rounds\<close> and \<^verbatim>\<open>depth\<close>.
\<close>

function cascadeLoop ::
  "Exposure list \<Rightarrow> jsnum \<Rightarrow> string list \<Rightarrow> string list list \<Rightarrow> string list \<Rightarrow> SimState list \<Rightarrow> nat
     \<Rightarrow> string list \<times> string list list \<times> nat" where
  "cascadeLoop exposures shock failed rnds currentFailed state d =
     (if currentFailed \<noteq> [] \<and> d < 20 then
        (case processRound exposures shock currentFailed failed state of
           (failed', state', nextFailures) \<Rightarrow>
             if nextFailures = [] then (failed', rnds, d)
             else cascadeLoop exposures shock failed' (rnds @ [nextFailures]) nextFailures state' (d + 1))
      else (failed, rnds, d))"
  by pat_completeness auto
termination
  by (relation "measure (\<lambda>(exposures, shock, failed, rnds, currentFailed, state, d). 20 - d)") auto

declare cascadeLoop.simps [simp del]

text \<open>
  \<^verbatim>\<open>Array.from(failed).reduce((sum, id) => sum + (inst?.total_assets || 0), 0)\<close> with
  \<^verbatim>\<open>inst = institutions.find(i => i.institution_id === id)\<close>.
\<close>

definition assetsOf :: "Institution list \<Rightarrow> string \<Rightarrow> jsnum" where
  "assetsOf institutions ident =
     (case find (\<lambda>i. institution_id i = ident) institutions of
        None \<Rightarrow> Fin 0
      | Some inst \<Rightarrow> orElse (total_assets inst) (Fin 0))"

definition computeTotalLoss :: "Institution list \<Rightarrow> string list \<Rightarrow> jsnum" where
  "computeTotalLoss institutions failed =
     foldl (\<lambda>sum ident. jadd sum (assetsOf institutions ident)) (Fin 0) failed"

text \<open>
  \<^verbatim>\<open>runSimulation(startId, shock)\<close> in the component whose props are \<^verbatim>\<open>institutions\<close>
  and \<^verbatim>\<open>exposures\<close>.  With an empty \<^verbatim>\<open>startId\<close> it returns at once and no result is
  ever set (\<open>None\<close>); otherwise the timer callback computes the result handed to
  \<^verbatim>\<open>setSimResult\<close>.
\<close>

definition runSimulation :: "Institution list \<Rightarrow> Exposure list \<Rightarrow> string \<Rightarrow> jsnum \<Rightarrow> SimResult option" where
  "runSimulation institutions exposures startId shock =
     (if startId = [] then None
      else (case cascadeLoop exposures shock [startId] [[startId]] [startId] (initState institutions) 0 of
              (failed, rnds, d) \<Rightarrow>
                Some \<lparr>failedNodes = failed, rounds = rnds,
                      totalLoss = computeTotalLoss institutions failed, depth = d\<rparr>))"

section \<open>Dataset normalisation (utils/dataProcessor.ts)\<close>

text \<open>
  \<^verbatim>\<open>calculateStableRisk(currentMetrics, marketLatest)\<close>.  The value drawn by
  \<^verbatim>\<open>Math.random()\<close> is the parameter \<open>rnd\<close>.  No operation in the \<^verbatim>\<open>try\<close> block
  throws on rows of the declared types, so its \<^verbatim>\<open>catch\<close> branch (returning 0.6245) has
  no counterpart here.
\<close>

definition calculateStableRisk :: "jsnum \<Rightarrow> InstitutionMetrics list \<Rightarrow> MarketData \<Rightarrow> jsnum" where
  "calculateStableRisk rnd currentMetrics marketLatest =
     (if length currentMetrics = 0 then Fin 0.62
      else
        let n = Fin (real (length currentMetrics));
            avgLeverage =
              jdiv (foldl (\<lambda>acc curr. jadd acc (orElse (leverage_ratio curr) (Fin 0))) (Fin 0) currentMetrics) n;
            leverageScore = jmin (jdiv avgLeverage (Fin 30)) (Fin 1);
            avgCds =
              jdiv (foldl (\<lambda>acc curr. jadd acc (orElse (cds_spread curr) (Fin 0))) (Fin 0) currentMetrics) n;
            cdsScore = jmin (jdiv avgCds (Fin 600)) (Fin 1);
            vixVal = orElse (vix_index marketLatest) (Fin 25);
            vixScore = jmin (jdiv vixVal (Fin 50)) (Fin 1);
            baseRiskIndex =
              jadd (jadd (jmul leverageScore (Fin 0.4)) (jmul cdsScore (Fin 0.4))) (jmul vixScore (Fin 0.2));
            jitter = jsub (jmul rnd (Fin 0.0024)) (Fin 0.0012)
        in jmax (Fin 0) (jmin (Fin 1) (jadd baseRiskIndex jitter)))"

text \<open>\<^verbatim>\<open>metrics.length > 0 ? metrics[metrics.length - 1].date : ''\<close>\<close>

definition latestDate :: "InstitutionMetrics list \<Rightarrow> string" where
  "latestDate metrics = (if metrics \<noteq> [] then InstitutionMetrics.date (last metrics) else [])"

text \<open>
  \<^verbatim>\<open>market.find(m => m.date === latestDate) || market[market.length - 1] || { vix_index: 25 }\<close>.
  The literal has no date; only its \<^verbatim>\<open>vix_index\<close> is ever read.
\<close>

definition marketLatest :: "MarketData list \<Rightarrow> string \<Rightarrow> MarketData" where
  "marketLatest market d =
     (case find (\<lambda>m. MarketData.date m = d) market of
        Some m \<Rightarrow> m
      | None \<Rightarrow>
          if market \<noteq> [] then last market
          else \<lparr>MarketData.date = [], vix_index = Some (Fin 25), yield_curve_slope = None, gdp_growth = None\<rparr>)"

text \<open>
  The objects \<^verbatim>\<open>nodeVolumes\<close> and \<^verbatim>\<open>connectionCounts\<close> start as \<^verbatim>\<open>{}\<close>.  Their own
  properties are an association list in insertion order, whose length is
  \<^verbatim>\<open>Object.keys(...).length\<close>; behind it stands \<^verbatim>\<open>Object.prototype\<close>, with the property
  names ECMAScript gives it.
\<close>

type_synonym numRecord = "(string \<times> jsval) list"

definition objectPrototypeNames :: "string list" where
  "objectPrototypeNames =
     [''constructor'', ''__defineGetter__'', ''__defineSetter__'', ''hasOwnProperty'',
      ''__lookupGetter__'', ''__lookupSetter__'', ''isPrototypeOf'', ''propertyIsEnumerable'',
      ''toString'', ''valueOf'', ''__proto__'', ''toLocaleString'']"

text \<open>
  \<^verbatim>\<open>r[k]\<close> read: an own property, else the inherited one (a function, or the prototype
  object itself for \<^verbatim>\<open>__proto__\<close>), else \<^verbatim>\<open>undefined\<close>.
\<close>

definition getProp :: "numRecord \<Rightarrow> string \<Rightarrow> jsval option" where
  "getProp r k =
     (case map_of r k of
        Some v \<Rightarrow> Some v
      | None \<Rightarrow> if k \<in> set objectPrototypeNames then Some NotNum else None)"

text \<open>
  \<^verbatim>\<open>r[k] = v\<close> with a number or a string: it creates or overwrites the own property,
  except that the setter of \<^verbatim>\<open>__proto__\<close> ignores a value that is not an object and
  stores nothing.
\<close>

definition setProp :: "string \<Rightarrow> jsval \<Rightarrow> numRecord \<Rightarrow> numRecord" where
  "setProp k v r = (if k = ''__proto__'' then r else AList.update k v r)"

text \<open>\<^verbatim>\<open>r[k] = (r[k] || 0) + x\<close>\<close>

definition bump :: "string \<Rightarrow> jsnum \<Rightarrow> numRecord \<Rightarrow> numRecord" where
  "bump k x r = setProp k (jplus (orZero (getProp r k)) x) r"

text \<open>The body of \<^verbatim>\<open>network.forEach(edge => ...)\<close>, on the pair of both objects.\<close>

definition addEdge :: "string \<Rightarrow> numRecord \<times> numRecord \<Rightarrow> ExposureNetwork \<Rightarrow> numRecord \<times> numRecord" where
  "addEdge d acc edge =
     (case acc of (nodeVolumes, connectionCounts) \<Rightarrow>
        if ExposureNetwork.date edge = d then
          (bump (creditor_id edge) (orElse (exposure_amount edge) (Fin 0))
             (bump (debtor_id edge) (orElse (exposure_amount edge) (Fin 0)) nodeVolumes),
           bump (creditor_id edge) (Fin 1) (bump (debtor_id edge) (Fin 1) connectionCounts))
        else acc)"

definition nodeVolumes :: "string \<Rightarrow> ExposureNetwork list \<Rightarrow> numRecord" where
  "nodeVolumes d network = fst (foldl (addEdge d) ([], []) network)"

definition connectionCounts :: "string \<Rightarrow> ExposureNetwork list \<Rightarrow> numRecord" where
  "connectionCounts d network = snd (foldl (addEdge d) ([], []) network)"

text \<open>The four sub-scores of a metrics row and their capped sum.\<close>

definition leverageScore :: "InstitutionMetrics \<Rightarrow> jsnum" where
  "leverageScore m = jmul (jmin (jdiv (orElse (leverage_ratio m) (Fin 15)) (Fin 40)) (Fin 1)) (Fin 40)"

definition liquidityScore :: "InstitutionMetrics \<Rightarrow> jsnum" where
  "liquidityScore m = jmul (jmax (Fin 0) (jsub (Fin 1.2) (orElse (liquidity_ratio m) (Fin 1)))) (Fin 30)"

definition cdsScore :: "InstitutionMetrics \<Rightarrow> jsnum" where
  "cdsScore m = jmul (jmin (jdiv (orElse (cds_spread m) (Fin 100)) (Fin 1000)) (Fin 1)) (Fin 20)"

definition vixScore :: "MarketData \<Rightarrow> jsnum" where
  "vixScore mk = jmul (jmin (jdiv (orElse (vix_index mk) (Fin 25)) (Fin 60)) (Fin 1)) (Fin 10)"

text \<open>
  \<^verbatim>\<open>riskScore = Math.min(100, leverageScore + liquidityScore + cdsScore + vixScore)\<close>,
  stored as \<^verbatim>\<open>isNaN(riskScore) ? 0 : riskScore\<close>.
\<close>

definition nodeRiskScore :: "InstitutionMetrics \<Rightarrow> MarketData \<Rightarrow> jsnum" where
  "nodeRiskScore m mk =
     (let r = jmin (Fin 100)
                (jadd (jadd (jadd (leverageScore m) (liquidityScore m)) (cdsScore m)) (vixScore mk))
      in if isNaN r then Fin 0 else r)"

text \<open>
  \<^verbatim>\<open>(connectionCounts[m.institution_id] || 0) / Math.max(1, Object.keys(connectionCounts).length)\<close>
\<close>

definition nodeCentrality :: "numRecord \<Rightarrow> string \<Rightarrow> jsnum" where
  "nodeCentrality counts ident =
     jdiv (toNumber (orZero (getProp counts ident))) (jmax (Fin 1) (Fin (real (length counts))))"

definition toNode :: "MarketData \<Rightarrow> numRecord \<Rightarrow> numRecord \<Rightarrow> InstitutionMetrics \<Rightarrow> Institution" where
  "toNode mk volumes counts m =
     \<lparr>InstitutionMetrics.date = InstitutionMetrics.date m, institution_id = institution_id m,
      total_assets = total_assets m, leverage_ratio = leverage_ratio m,
      liquidity_ratio = liquidity_ratio m, roe = roe m, cds_spread = cds_spread m,
      riskScore = nodeRiskScore m mk,
      pagerank = orZero (getProp volumes (institution_id m)),
      centrality = nodeCentrality counts (institution_id m)\<rparr>"

definition toLink :: "ExposureNetwork \<Rightarrow> Exposure" where
  "toLink e =
     \<lparr>source = creditor_id e, target = debtor_id e,
      amount = Some (orElse (exposure_amount e) (Fin 0)),
      collateral = Some (orElse (collateral_value e) (Fin 0))\<rparr>"

text \<open>
  \<^verbatim>\<open>processCsvData(metrics, network, market, labels)\<close>: the nodes and links of its
  result.  The prediction series, drawn from \<^verbatim>\<open>Math.random()\<close> per label row, is not
  part of this development.
\<close>

record ProcessedData =
  nodes :: "Institution list"
  links :: "Exposure list"

definition processCsvData :: "InstitutionMetrics list \<Rightarrow> ExposureNetwork list \<Rightarrow> MarketData list \<Rightarrow> ProcessedData" where
  "processCsvData metrics network market =
     (let d = latestDate metrics;
          mk = marketLatest market d;
          currentMetrics = filter (\<lambda>m. InstitutionMetrics.date m = d) metrics
      in \<lparr>nodes = map (toNode mk (nodeVolumes d network) (connectionCounts d network)) currentMetrics,
          links = map toLink (filter (\<lambda>e. ExposureNetwork.date e = d) network)\<rparr>)"

section \<open>Predicates and sample inputs used in the statements\<close>

text \<open>No institution of the per-run state has equity at or below zero.\<close>

definition solvent :: "SimState list \<Rightarrow> bool" where
  "solvent state = (\<forall>s \<in> set state. \<not> jle (equity s) (Fin 0))"

text \<open>A field that is absent, NaN or not negative; a field that is not an infinity.\<close>

definition fieldNonNeg :: "jsnum option \<Rightarrow> bool" where
  "fieldNonNeg f = (case f of None \<Rightarrow> True | Some x \<Rightarrow> x = NaN \<or> jle (Fin 0) x)"

definition fieldFinite :: "jsnum option \<Rightarrow> bool" where
  "fieldFinite f = (case f of None \<Rightarrow> True | Some x \<Rightarrow> x \<noteq> PInf \<and> x \<noteq> NInf)"

text \<open>
  The rows of the network dated \<open>d\<close>, seen from their ends: the list of all end points
  (debtor, then creditor, of each row), the number of times an id occurs in it, and the
  number of distinct ids in it other than \<^verbatim>\<open>__proto__\<close>.
\<close>

definition endpoints :: "string \<Rightarrow> ExposureNetwork list \<Rightarrow> string list" where
  "endpoints d network =
     concat (map (\<lambda>e. [debtor_id e, creditor_id e]) (filter (\<lambda>e. ExposureNetwork.date e = d) network))"

definition connections :: "string \<Rightarrow> ExposureNetwork list \<Rightarrow> string \<Rightarrow> nat" where
  "connections d network i = count_list (endpoints d network) i"

definition connectedCount :: "string \<Rightarrow> ExposureNetwork list \<Rightarrow> nat" where
  "connectedCount d network = length (remdups (filter (\<lambda>k. k \<noteq> ''__proto__'') (endpoints d network)))"

text \<open>No row dated \<open>d\<close> is a self-loop and no two of them join the same pair of ids.\<close>

definition simpleGraph :: "string \<Rightarrow> ExposureNetwork list \<Rightarrow> bool" where
  "simpleGraph d network =
     (let es = filter (\<lambda>e. ExposureNetwork.date e = d) network
      in list_all (\<lambda>e. creditor_id e \<noteq> debtor_id e) es
         \<and> distinct (map (\<lambda>e. {creditor_id e, debtor_id e}) es))"

text \<open>The entry a counter object holds for an id that was counted \<open>c\<close> times.\<close>

definition countEntry :: "nat \<Rightarrow> jsval option" where
  "countEntry c = (if c = 0 then None else Some (Num (Fin (real c))))"

text \<open>Sample rows.\<close>

definition exRow :: "string \<Rightarrow> jsnum option \<Rightarrow> jsnum option \<Rightarrow> jsnum option \<Rightarrow> InstitutionMetrics" where
  "exRow i lev liq cds =
     \<lparr>InstitutionMetrics.date = ''2024-01-01'', institution_id = i, total_assets = Some (Fin 100),
      leverage_ratio = lev, liquidity_ratio = liq, roe = None, cds_spread = cds\<rparr>"

definition exMarket :: "jsnum option \<Rightarrow> MarketData" where
  "exMarket v = \<lparr>MarketData.date = ''2024-01-01'', vix_index = v, yield_curve_slope = None, gdp_growth = None\<rparr>"

definition exEdge :: "string \<Rightarrow> string \<Rightarrow> real \<Rightarrow> ExposureNetwork" where
  "exEdge c b a =
     \<lparr>ExposureNetwork.date = ''2024-01-01'', creditor_id = c, debtor_id = b,
      exposure_amount = Some (Fin a), collateral_value = None\<rparr>"

text \<open>An institution with the given id, total assets and leverage ratio, and an exposure.\<close>

definition exInst :: "string \<Rightarrow> real \<Rightarrow> real \<Rightarrow> Institution" where
  "exInst i a l =
     \<lparr>InstitutionMetrics.date = ''2024-01-01'', institution_id = i, total_assets = Some (Fin a),
      leverage_ratio = Some (Fin l), liquidity_ratio = None, roe = None, cds_spread = None,
      riskScore = Fin 0, pagerank = Num (Fin 0), centrality = Fin 0\<rparr>"

definition exLink :: "string \<Rightarrow> string \<Rightarrow> real \<Rightarrow> Exposure" where
  "exLink s t a = \<lparr>source = s, target = t, amount = Some (Fin a), collateral = None\<rparr>"

text \<open>
  A chain of 22 institutions \<open>a\<close> to \<open>v\<close>, each with equity 10 and each having lent 60
  to its predecessor.
\<close>

definition chainInsts :: "Institution list" where
  "chainInsts = map (\<lambda>c. exInst [c] 100 10) ''abcdefghijklmnopqrstuv''"

definition chainLinks :: "Exposure list" where
  "chainLinks =
     map (\<lambda>(c, t). exLink [c] [t] 60) (zip ''bcdefghijklmnopqrstuv'' ''abcdefghijklmnopqrstu'')"

section \<open>The cascade: structure of a round and of the loop\<close>

lemmas cascade_eval =
  runSimulation_def cascadeLoop.simps processRound_def processFailed_def processLink_def
  initState_def initEquity_def orElse_def truthy_def jsub_def computeTotalLoss_def assetsOf_def
  exInst_def exLink_def Let_def

lemma subEquity_ids: "map sid (subEquity c loss ss) = map sid ss"
  by (induction ss) auto

lemma find_sid_mem: "find (\<lambda>s. sid s = c) ss = Some x \<Longrightarrow> c \<in> set (map sid ss)"
  by (induction ss) (auto split: if_splits)

lemma processLink_ext:
  "\<exists>ys state'. processLink shock (failed, state, nxt) link = (failed @ ys, state', nxt @ ys)
           \<and> distinct ys \<and> set ys \<inter> set failed = {} \<and> set ys \<subseteq> set (map sid state)
           \<and> map sid state' = map sid state"
proof (cases "source link \<in> set failed")
  case True
  then show ?thesis by (simp add: processLink_def)
next
  case nf: False
  show ?thesis
  proof (cases "find (\<lambda>s. sid s = source link) state")
    case None
    then show ?thesis using nf by (simp add: processLink_def)
  next
    case (Some creditor)
    then have "source link \<in> set (map sid state)" by (rule find_sid_mem)
    then show ?thesis using nf Some
      by (simp add: processLink_def Let_def subEquity_ids)
  qed
qed

text \<open>Folding a step that only appends fresh ids appends a duplicate-free list of fresh ids.\<close>

lemma foldl_ext:
  assumes step: "\<And>failed state nxt x. \<exists>ys state'. f (failed, state, nxt) x = (failed @ ys, state', nxt @ ys)
           \<and> distinct ys \<and> set ys \<inter> set failed = {} \<and> set ys \<subseteq> set (map sid state)
           \<and> map sid state' = map sid state"
  shows "\<exists>ys state'. foldl f (failed, state, nxt) xs = (failed @ ys, state', nxt @ ys)
           \<and> distinct ys \<and> set ys \<inter> set failed = {} \<and> set ys \<subseteq> set (map sid state)
           \<and> map sid state' = map sid state"
proof (induction xs arbitrary: failed state nxt)
  case Nil
  then show ?case by simp
next
  case (Cons x xs)
  from step [of failed state nxt x]
  obtain ys1 st1 where 1: "f (failed, state, nxt) x = (failed @ ys1, st1, nxt @ ys1)"
    and d1: "distinct ys1" "set ys1 \<inter> set failed = {}" and s1: "set ys1 \<subseteq> set (map sid state)"
    and m1: "map sid st1 = map sid state" by blast
  from Cons.IH [of "failed @ ys1" st1 "nxt @ ys1"]
  obtain ys2 st2 where 2: "foldl f (failed @ ys1, st1, nxt @ ys1) xs
        = ((failed @ ys1) @ ys2, st2, (nxt @ ys1) @ ys2)"
    and d2: "distinct ys2" "set ys2 \<inter> set (failed @ ys1) = {}" and s2: "set ys2 \<subseteq> set (map sid st1)"
    and m2: "map sid st2 = map sid st1" by blast
  have a: "foldl f (failed, state, nxt) (x # xs) = (failed @ (ys1 @ ys2), st2, nxt @ (ys1 @ ys2))"
    using 1 2 by simp
  have b: "distinct (ys1 @ ys2)" using d1 d2 by auto
  have c: "set (ys1 @ ys2) \<inter> set failed = {}" using d1 d2 by auto
  have d: "set (ys1 @ ys2) \<subseteq> set (map sid state)" using s1 s2 m1 by auto
  have e: "map sid st2 = map sid state" using m1 m2 by simp
  from a b c d e show ?case by blast
qed

lemma processFailed_ext:
  "\<exists>ys state'. processFailed exposures shock (failed, state, nxt) fId = (failed @ ys, state', nxt @ ys)
           \<and> distinct ys \<and> set ys \<inter> set failed = {} \<and> set ys \<subseteq> set (map sid state)
           \<and> map sid state' = map sid state"
  unfolding processFailed_def by (rule foldl_ext) (rule processLink_ext)

lemma processRound_ext:
  "\<exists>ys state'. processRound exposures shock cur failed state = (failed @ ys, state', ys)
           \<and> distinct ys \<and> set ys \<inter> set failed = {} \<and> set ys \<subseteq> set (map sid state)
           \<and> map sid state' = map sid state"
proof -
  have "\<exists>ys state'. foldl (processFailed exposures shock) (failed, state, []) cur = (failed @ ys, state', [] @ ys)
           \<and> distinct ys \<and> set ys \<inter> set failed = {} \<and> set ys \<subseteq> set (map sid state)
           \<and> map sid state' = map sid state"
    by (rule foldl_ext) (rule processFailed_ext)
  then show ?thesis by (simp add: processRound_def)
qed

lemma cascadeLoop_inv:
  "distinct failed \<Longrightarrow> failed = concat rnds \<Longrightarrow>
   cascadeLoop exposures shock failed rnds cur state d = (F, R, D) \<Longrightarrow>
   F = concat R \<and> distinct F \<and> length R + d = length rnds + D \<and> d \<le> D \<and> (d \<le> 20 \<longrightarrow> D \<le> 20)
     \<and> take (length rnds) R = rnds \<and> set F \<subseteq> set failed \<union> set (map sid state)"
proof (induction exposures shock failed rnds cur state d rule: cascadeLoop.induct)
  case (1 exposures shock failed rnds cur state d)
  show ?case
  proof (cases "cur \<noteq> [] \<and> d < 20")
    case False
    then show ?thesis using "1.prems" by (auto simp: cascadeLoop.simps)
  next
    case True
    from processRound_ext [of exposures shock cur failed state]
    obtain ys st' where pr: "processRound exposures shock cur failed state = (failed @ ys, st', ys)"
      and dy: "distinct ys" "set ys \<inter> set failed = {}" and sy: "set ys \<subseteq> set (map sid state)"
      and my: "map sid st' = map sid state" by blast
    have unf: "cascadeLoop exposures shock failed rnds cur state d =
        (if ys = [] then (failed @ ys, rnds, d)
         else cascadeLoop exposures shock (failed @ ys) (rnds @ [ys]) ys st' (d + 1))"
      using True pr by (simp add: cascadeLoop.simps [of exposures shock failed rnds cur state d])
    show ?thesis
    proof (cases "ys = []")
      case True
      then have "F = failed" "R = rnds" "D = d" using unf "1.prems"(3) by simp_all
      then show ?thesis using "1.prems"(1,2) by simp
    next
      case False
      have eq: "cascadeLoop exposures shock (failed @ ys) (rnds @ [ys]) ys st' (d + 1) = (F, R, D)"
        using "1.prems"(3) unf False by simp
      have c: "failed @ ys = concat (rnds @ [ys])" using "1.prems"(2) by simp
      have dfy: "distinct (failed @ ys)" using "1.prems"(1) dy by auto
      from "1.IH" [OF True pr [symmetric] refl False dfy c eq]
      have ih: "F = concat R \<and> distinct F \<and> length R + (d + 1) = length (rnds @ [ys]) + D \<and> d + 1 \<le> D
        \<and> (d + 1 \<le> 20 \<longrightarrow> D \<le> 20) \<and> take (length (rnds @ [ys])) R = rnds @ [ys]
        \<and> set F \<subseteq> set (failed @ ys) \<union> set (map sid st')" .
      have tk: "take (length rnds) R = rnds"
      proof -
        from ih have "take (length rnds) (take (length (rnds @ [ys])) R) = take (length rnds) (rnds @ [ys])" by simp
        then show ?thesis by (simp add: min_def)
      qed
      from ih have "set F \<subseteq> set (failed @ ys) \<union> set (map sid st')" by blast
      then have sub: "set F \<subseteq> set failed \<union> set (map sid state)" using sy my by auto
      from ih have "length R + d = length rnds + D" "d \<le> D" "d \<le> 20 \<longrightarrow> D \<le> 20" using True by simp_all
      then show ?thesis using ih tk sub by blast
    qed
  qed
qed

lemma initState_ids: "map sid (initState institutions) = map institution_id institutions"
  by (simp add: initState_def)

text \<open>What every run that produces a result satisfies.\<close>

lemma runSimulation_facts:
  assumes "runSimulation institutions exposures startId shock = Some r"
  shows "failedNodes r = concat (rounds r)" and "distinct (failedNodes r)"
    and "length (rounds r) = depth r + 1" and "depth r \<le> 20"
    and "take 1 (rounds r) = [[startId]]"
    and "set (failedNodes r) \<subseteq> insert startId (set (map institution_id institutions))"
proof -
  obtain F R D where cl: "cascadeLoop exposures shock [startId] [[startId]] [startId] (initState institutions) 0 = (F, R, D)"
    by (metis prod_cases3)
  from assms cl have r: "failedNodes r = F" "rounds r = R" "depth r = D"
    by (auto simp: runSimulation_def split: if_splits)
  have inv: "F = concat R \<and> distinct F \<and> length R + 0 = length [[startId]] + D \<and> 0 \<le> D \<and> (0 \<le> (20::nat) \<longrightarrow> D \<le> 20)
     \<and> take (length [[startId]]) R = [[startId]] \<and> set F \<subseteq> set [startId] \<union> set (map sid (initState institutions))"
    by (rule cascadeLoop_inv [OF _ _ cl]) simp_all
  from inv have "set F \<subseteq> set [startId] \<union> set (map sid (initState institutions))" by blast
  then have sub: "set F \<subseteq> insert startId (set (map institution_id institutions))"
    by (simp add: initState_ids)
  from inv have "F = concat R" "distinct F" by blast+
  moreover from inv have "length R = D + 1" "D \<le> 20" "take 1 R = [[startId]]" by simp_all
  moreover note sub
  ultimately have "F = concat R" "distinct F" "length R = D + 1" "D \<le> 20" "take 1 R = [[startId]]"
    "set F \<subseteq> insert startId (set (map institution_id institutions))"
    by blast+
  then show "failedNodes r = concat (rounds r)" and "distinct (failedNodes r)"
    and "length (rounds r) = depth r + 1" and "depth r \<le> 20"
    and "take 1 (rounds r) = [[startId]]"
    and "set (failedNodes r) \<subseteq> insert startId (set (map institution_id institutions))"
    using r by simp_all
qed

lemma distinct_concat_nth:
  "distinct (concat xss) \<Longrightarrow> i < j \<Longrightarrow> j < length xss \<Longrightarrow> set (xss ! i) \<inter> set (xss ! j) = {}"
proof (induction xss arbitrary: i j)
  case Nil
  then show ?case by simp
next
  case (Cons xs xss)
  show ?case
  proof (cases i)
    case 0
    then obtain j' where j: "j = Suc j'" "j' < length xss" using Cons.prems by (cases j) auto
    then have "set (xss ! j') \<subseteq> set (concat xss)" using nth_mem [of j' xss] by fastforce
    moreover have "set xs \<inter> set (concat xss) = {}" using Cons.prems(1) by simp
    ultimately show ?thesis using 0 j by auto
  next
    case (Suc i')
    then obtain j' where j: "j = Suc j'" "i' < j'" "j' < length xss" using Cons.prems by (cases j) auto
    from Cons.prems(1) have "distinct (concat xss)" by simp
    from Cons.IH [OF this j(2,3)] show ?thesis using Suc j by simp
  qed
qed


subsection \<open>Termination within the round cap\<close>

text \<open>
  Claim C1.  For every institutions list, exposures list, start institution and LGD
  fraction the simulation returns, and it runs at most 21 rounds: either the start id is
  empty and nothing runs, or the result has round 0 equal to the start institution alone,
  followed by one round per unit of depth, with depth at most 20.
\<close>

theorem cascade_round_bound:
  "case runSimulation institutions exposures startId shock of
     None \<Rightarrow> startId = []
   | Some r \<Rightarrow> depth r \<le> 20 \<and> length (rounds r) = depth r + 1 \<and> length (rounds r) \<le> 21
               \<and> take 1 (rounds r) = [[startId]]"
proof (cases "runSimulation institutions exposures startId shock")
  case None
  then show ?thesis
    by (cases "cascadeLoop exposures shock [startId] [[startId]] [startId] (initState institutions) 0")
      (simp add: runSimulation_def split: if_splits)
next
  case (Some r)
  from runSimulation_facts(3,4,5) [OF Some] show ?thesis using Some by simp
qed

text \<open>On the chain the cap is reached: 20 propagation rounds run and \<open>v\<close> is never processed.\<close>

theorem cascade_round_bound_witness:
  "case runSimulation chainInsts chainLinks ''a'' (Fin 1) of
     None \<Rightarrow> False
   | Some r \<Rightarrow> depth r = 20 \<and> length (rounds r) = 21 \<and> take 1 (rounds r) = [[''a'']]
               \<and> ''v'' \<notin> set (failedNodes r)"
  using cascade_round_bound
    [where institutions = chainInsts and exposures = chainLinks and startId = "''a''" and shock = "Fin 1"]
  by (simp add: cascade_eval chainInsts_def chainLinks_def)

subsection \<open>Rounds partition the failed set\<close>

text \<open>
  Claim C2.  In every run the per-round failure lists are duplicate-free and pairwise
  disjoint, joined together they are exactly the failed set, and the failed set only
  grows: a round never removes an id from it, and an exposure whose creditor has already
  failed changes nothing (the creditor is neither charged nor added again).
\<close>

theorem cascade_rounds_partition_failed:
  assumes "runSimulation institutions exposures startId shock = Some r"
  shows "distinct (concat (rounds r)) \<and> concat (rounds r) = failedNodes r
    \<and> (\<forall>i j. i < j \<and> j < length (rounds r) \<longrightarrow> set (rounds r ! i) \<inter> set (rounds r ! j) = {})
    \<and> (\<forall>cur failed state. set failed \<subseteq> set (fst (processRound exposures shock cur failed state)))
    \<and> (\<forall>failed state nxt link. source link \<in> set failed \<longrightarrow>
          processLink shock (failed, state, nxt) link = (failed, state, nxt))"
proof -
  have c: "failedNodes r = concat (rounds r)" and d: "distinct (failedNodes r)"
    using runSimulation_facts(1,2) [OF assms] by simp_all
  have dc: "distinct (concat (rounds r))" using c d by simp
  have pw: "\<forall>i j. i < j \<and> j < length (rounds r) \<longrightarrow> set (rounds r ! i) \<inter> set (rounds r ! j) = {}"
    using distinct_concat_nth [OF dc] by blast
  have grow: "\<forall>cur failed state. set failed \<subseteq> set (fst (processRound exposures shock cur failed state))"
  proof (intro allI)
    fix cur failed state
    obtain ys st' where "processRound exposures shock cur failed state = (failed @ ys, st', ys)"
      using processRound_ext [of exposures shock cur failed state] by blast
    then show "set failed \<subseteq> set (fst (processRound exposures shock cur failed state))" by simp
  qed
  have skip: "\<forall>failed state nxt link. source link \<in> set failed \<longrightarrow>
          processLink shock (failed, state, nxt) link = (failed, state, nxt)"
    by (simp add: processLink_def)
  from dc c pw grow skip show ?thesis by simp
qed

theorem cascade_rounds_partition_failed_witness:
  "runSimulation [exInst ''A'' 100 10, exInst ''B'' 100 10, exInst ''C'' 100 10]
     [exLink ''B'' ''A'' 60, exLink ''C'' ''B'' 60, exLink ''A'' ''C'' 60] ''A'' (Fin 1)
   = Some \<lparr>failedNodes = [''A'', ''B'', ''C''], rounds = [[''A''], [''B''], [''C'']],
           totalLoss = Fin 300, depth = 2\<rparr>
   \<and> distinct (concat [[''A''], [''B''], [''C'']])
   \<and> concat [[''A''], [''B''], [''C'']] = [''A'', ''B'', ''C'']"
proof -
  have h: "runSimulation [exInst ''A'' 100 10, exInst ''B'' 100 10, exInst ''C'' 100 10]
     [exLink ''B'' ''A'' 60, exLink ''C'' ''B'' 60, exLink ''A'' ''C'' 60] ''A'' (Fin 1)
   = Some \<lparr>failedNodes = [''A'', ''B'', ''C''], rounds = [[''A''], [''B''], [''C'']],
           totalLoss = Fin 300, depth = 2\<rparr>"
    by (simp add: cascade_eval)
  show ?thesis using h cascade_rounds_partition_failed [OF h] by simp
qed

subsection \<open>Only listed institutions can fail\<close>

text \<open>
  Claim C10.  Every id in the final failed set other than the start id is the
  \<^verbatim>\<open>institution_id\<close> of a record of the institutions list.
\<close>

theorem failed_ids_are_institutions:
  assumes "runSimulation institutions exposures startId shock = Some r"
    and "x \<in> set (failedNodes r)" and "x \<noteq> startId"
  shows "x \<in> set (map institution_id institutions)"
  using runSimulation_facts(6) [OF assms(1)] assms(2,3) by auto

text \<open>The creditor \<open>X\<close> is an exposure endpoint only: it loses nothing and never fails.\<close>

theorem failed_ids_are_institutions_witness:
  "runSimulation [exInst ''A'' 100 10, exInst ''B'' 100 10]
     [exLink ''X'' ''A'' 600, exLink ''B'' ''A'' 60] ''A'' (Fin 1)
   = Some \<lparr>failedNodes = [''A'', ''B''], rounds = [[''A''], [''B'']], totalLoss = Fin 200, depth = 1\<rparr>
   \<and> ''B'' \<in> set [''A'', ''B''] \<and> ''B'' \<noteq> ''A''
   \<and> ''B'' \<in> set (map institution_id [exInst ''A'' 100 10, exInst ''B'' 100 10])"
proof -
  have h: "runSimulation [exInst ''A'' 100 10, exInst ''B'' 100 10]
     [exLink ''X'' ''A'' 600, exLink ''B'' ''A'' 60] ''A'' (Fin 1)
   = Some \<lparr>failedNodes = [''A'', ''B''], rounds = [[''A''], [''B'']], totalLoss = Fin 200, depth = 1\<rparr>"
    by (simp add: cascade_eval)
  have m: "''B'' \<in> set (failedNodes \<lparr>failedNodes = [''A'', ''B''], rounds = [[''A''], [''B'']],
      totalLoss = Fin 200, depth = 1\<rparr>)" by simp
  have n: "''B'' \<noteq> ''A''" by simp
  show ?thesis using h n failed_ids_are_institutions [OF h m n] by simp
qed

subsection \<open>A zero LGD fraction\<close>

lemma zero_shock_keeps_solvent: "\<not> jle e (Fin 0) \<Longrightarrow> \<not> jle (jsub e (jmul x (Fin 0))) (Fin 0)"
  by (cases x; cases e) (auto simp: jsub_def)

lemma solvent_subEquity:
  "solvent state \<Longrightarrow> solvent (subEquity c (jmul x (Fin 0)) state)"
  unfolding solvent_def
  by (induction state) (auto simp: zero_shock_keeps_solvent)

lemma find_mem: "find P xs = Some x \<Longrightarrow> x \<in> set xs"
  by (induction xs) (auto split: if_splits)

lemma processLink_zero:
  assumes "solvent state"
  shows "\<exists>state'. processLink (Fin 0) (failed, state, nxt) link = (failed, state', nxt) \<and> solvent state'"
proof (cases "find (\<lambda>s. sid s = source link) state")
  case None
  then show ?thesis using assms by (simp add: processLink_def)
next
  case (Some creditor)
  then have "creditor \<in> set state" by (rule find_mem)
  then have "\<not> jle (equity creditor) (Fin 0)" using assms by (simp add: solvent_def)
  then have "\<not> jle (jsub (equity creditor) (jmul (orElse (amount link) (Fin 0)) (Fin 0))) (Fin 0)"
    by (rule zero_shock_keeps_solvent)
  then show ?thesis using Some solvent_subEquity [OF assms] assms
    by (simp add: processLink_def Let_def)
qed

lemma foldl_zero:
  assumes step: "\<And>failed state nxt x. solvent state \<Longrightarrow> \<exists>state'. f (failed, state, nxt) x = (failed, state', nxt) \<and> solvent state'"
  shows "solvent state \<Longrightarrow> \<exists>state'. foldl f (failed, state, nxt) xs = (failed, state', nxt) \<and> solvent state'"
proof (induction xs arbitrary: state)
  case Nil
  then show ?case by simp
next
  case (Cons x xs)
  from step [OF Cons.prems, of failed nxt x]
  obtain st1 where 1: "f (failed, state, nxt) x = (failed, st1, nxt)" and s1: "solvent st1" by blast
  from Cons.IH [OF s1] 1 show ?case by simp
qed

lemma processRound_zero:
  assumes "solvent state"
  shows "\<exists>state'. processRound exposures (Fin 0) cur failed state = (failed, state', [])"
proof -
  have "\<exists>state'. foldl (processFailed exposures (Fin 0)) (failed, state, []) cur = (failed, state', []) \<and> solvent state'"
    using assms
  proof (rule foldl_zero [rotated])
    fix failed state nxt x
    assume "solvent state"
    then show "\<exists>state'. processFailed exposures (Fin 0) (failed, state, nxt) x = (failed, state', nxt) \<and> solvent state'"
      unfolding processFailed_def
      by (rule foldl_zero [rotated]) (rule processLink_zero)
  qed
  then show ?thesis by (auto simp: processRound_def)
qed

lemma solvent_initState:
  "(\<forall>i \<in> set institutions. \<not> jle (initEquity i) (Fin 0)) \<Longrightarrow> solvent (initState institutions)"
  by (simp add: solvent_def initState_def)


text \<open>
  Claim C3, as stated, fails: a creditor whose initial equity is not positive (here a
  negative leverage ratio, which the \<^verbatim>\<open>|| 15\<close> default does not replace) fails in
  round 1 although the loss charged to it is zero.
\<close>

theorem zero_lgd_counterexample:
  "runSimulation [exInst ''A'' 100 10, exInst ''B'' 100 (- 10)] [exLink ''B'' ''A'' 60] ''A'' (Fin 0)
   = Some \<lparr>failedNodes = [''A'', ''B''], rounds = [[''A''], [''B'']], totalLoss = Fin 200, depth = 1\<rparr>"
  by (simp add: cascade_eval)

text \<open>
  Claim C3, amended.  When the start id is not empty and no institution starts with
  equity at or below zero, a run with LGD fraction 0 returns depth 0, the single round
  \<open>[startId]\<close> and the failed set \<open>{startId}\<close>.
\<close>

theorem zero_lgd_no_contagion:
  assumes "startId \<noteq> []" and "\<forall>i \<in> set institutions. \<not> jle (initEquity i) (Fin 0)"
  shows "runSimulation institutions exposures startId (Fin 0) =
           Some \<lparr>failedNodes = [startId], rounds = [[startId]],
                 totalLoss = computeTotalLoss institutions [startId], depth = 0\<rparr>"
proof -
  from assms(2) have "solvent (initState institutions)" by (rule solvent_initState)
  then obtain st' where "processRound exposures (Fin 0) [startId] [startId] (initState institutions) = ([startId], st', [])"
    using processRound_zero by blast
  then have "cascadeLoop exposures (Fin 0) [startId] [[startId]] [startId] (initState institutions) 0 = ([startId], [[startId]], 0)"
    by (simp add: cascadeLoop.simps)
  then show ?thesis using assms(1) by (simp add: runSimulation_def)
qed


theorem zero_lgd_no_contagion_witness:
  "''A'' \<noteq> [] \<and> initEquity (exInst ''A'' 100 10) = Fin 10 \<and> initEquity (exInst ''B'' 100 10) = Fin 10
   \<and> runSimulation [exInst ''A'' 100 10, exInst ''B'' 100 10] [exLink ''B'' ''A'' 60] ''A'' (Fin 0)
     = Some \<lparr>failedNodes = [''A''], rounds = [[''A'']], totalLoss = Fin 100, depth = 0\<rparr>"
proof -
  have a: "''A'' \<noteq> []" by simp
  have b: "\<forall>i \<in> set [exInst ''A'' 100 10, exInst ''B'' 100 10]. \<not> jle (initEquity i) (Fin 0)"
    by (simp add: initEquity_def orElse_def truthy_def exInst_def)
  have c: "computeTotalLoss [exInst ''A'' 100 10, exInst ''B'' 100 10] [''A''] = Fin 100"
    by (simp add: computeTotalLoss_def assetsOf_def orElse_def truthy_def exInst_def)
  have e: "initEquity (exInst ''A'' 100 10) = Fin 10" "initEquity (exInst ''B'' 100 10) = Fin 10"
    by (simp_all add: initEquity_def orElse_def truthy_def exInst_def)
  show ?thesis using a c e zero_lgd_no_contagion [OF a b, of "[exLink ''B'' ''A'' 60]"] by simp
qed

subsection \<open>A start id outside the institutions list\<close>

lemma find_None_all: "find P xs = None \<longleftrightarrow> (\<forall>x \<in> set xs. \<not> P x)"
  by (induction xs) auto

text \<open>
  Claim C9, as stated, fails: with a start id that no institution carries the run is an
  ordinary one; here it even spreads to a creditor of the unknown id.
\<close>

theorem unknown_start_counterexample:
  "runSimulation [exInst ''A'' 100 10, exInst ''B'' 100 10] [exLink ''B'' ''Z'' 60] ''Z'' (Fin 1)
   = Some \<lparr>failedNodes = [''Z'', ''B''], rounds = [[''Z''], [''B'']], totalLoss = Fin 100, depth = 1\<rparr>"
  by (simp add: cascade_eval)

text \<open>
  Claim C9, amended.  A non-empty start id that is absent from the institutions list is
  not rejected: the run returns an ordinary result whose round 0 is the start id alone,
  the start id is in the failed set, and it adds nothing to the total loss.
\<close>

theorem unknown_start_runs:
  assumes "startId \<noteq> []" and "startId \<notin> set (map institution_id institutions)"
  shows "\<exists>r. runSimulation institutions exposures startId shock = Some r
            \<and> take 1 (rounds r) = [[startId]] \<and> startId \<in> set (failedNodes r)
            \<and> assetsOf institutions startId = Fin 0"
proof -
  obtain r where r: "runSimulation institutions exposures startId shock = Some r"
    using assms(1) by (cases "cascadeLoop exposures shock [startId] [[startId]] [startId] (initState institutions) 0")
      (simp add: runSimulation_def)
  have t: "take 1 (rounds r) = [[startId]]" and c: "failedNodes r = concat (rounds r)"
    using runSimulation_facts [OF r] by simp_all
  from t obtain rest where "rounds r = [startId] # rest" by (cases "rounds r") auto
  then have m: "startId \<in> set (failedNodes r)" using c by simp
  have "find (\<lambda>i. institution_id i = startId) institutions = None"
    using assms(2) by (auto simp: find_None_all)
  then have "assetsOf institutions startId = Fin 0" by (simp add: assetsOf_def)
  then show ?thesis using r t m by blast
qed


theorem unknown_start_runs_witness:
  "''Z'' \<noteq> [] \<and> ''Z'' \<notin> set (map institution_id [exInst ''A'' 100 10])
   \<and> (\<exists>r. runSimulation [exInst ''A'' 100 10] [] ''Z'' (Fin 1) = Some r
          \<and> take 1 (rounds r) = [[''Z'']] \<and> ''Z'' \<in> set (failedNodes r)
          \<and> assetsOf [exInst ''A'' 100 10] ''Z'' = Fin 0)"
proof -
  have a: "''Z'' \<noteq> []" by simp
  have b: "''Z'' \<notin> set (map institution_id [exInst ''A'' 100 10])" by (simp add: exInst_def)
  show ?thesis using a b unknown_start_runs [OF a b, of "[]" "Fin 1"] by blast
qed

section \<open>The risk score of a metrics row\<close>

lemmas normalise_eval =
  processCsvData_def latestDate_def marketLatest_def toNode_def toLink_def nodeCentrality_def
  connectionCounts_def nodeVolumes_def addEdge_def bump_def getProp_def setProp_def
  orZero_def jplus_def toNumber_def objectPrototypeNames_def orElse_def truthy_def
  exEdge_def exRow_def exMarket_def Let_def

lemmas score_eval =
  nodeRiskScore_def leverageScore_def liquidityScore_def cdsScore_def vixScore_def
  jsub_def isNaN_def

lemma orElse_not_NaN: "d \<noteq> NaN \<Longrightarrow> orElse f d \<noteq> NaN"
  by (auto simp: orElse_def truthy_def split: option.splits)

lemma orElse_pos:
  assumes "fieldNonNeg f" "0 < d"
  shows "orElse f (Fin d) = PInf \<or> (\<exists>a. orElse f (Fin d) = Fin a \<and> 0 < a)"
proof (cases f)
  case None
  then show ?thesis using assms by (simp add: orElse_def)
next
  case (Some x)
  then show ?thesis using assms
    by (cases x) (auto simp: orElse_def truthy_def fieldNonNeg_def)
qed

lemma capped_le: "x \<noteq> NaN \<Longrightarrow> 0 < c \<Longrightarrow> 0 < w \<Longrightarrow> jle (jmul (jmin (jdiv x (Fin c)) (Fin 1)) (Fin w)) (Fin w)"
  by (cases x) (auto simp: min_def mult_le_cancel_right1 divide_le_eq)

lemma capped_range:
  assumes "x = PInf \<or> (\<exists>a. x = Fin a \<and> 0 < a)" "0 < c" "0 < w"
  shows "\<exists>r. jmul (jmin (jdiv x (Fin c)) (Fin 1)) (Fin w) = Fin r \<and> 0 \<le> r \<and> r \<le> w"
  using assms by (auto simp: min_def divide_le_eq mult_le_cancel_right1)

lemma leverageScore_le: "jle (leverageScore m) (Fin 40)"
  unfolding leverageScore_def by (rule capped_le) (simp_all add: orElse_not_NaN)

lemma cdsScore_le: "jle (cdsScore m) (Fin 20)"
  unfolding cdsScore_def by (rule capped_le) (simp_all add: orElse_not_NaN)

lemma vixScore_le: "jle (vixScore mk) (Fin 10)"
  unfolding vixScore_def by (rule capped_le) (simp_all add: orElse_not_NaN)

lemma liquidityScore_range: "liquidityScore m = PInf \<or> (\<exists>q. liquidityScore m = Fin q \<and> 0 \<le> q)"
proof -
  have "orElse (liquidity_ratio m) (Fin 1) \<noteq> NaN" by (simp add: orElse_not_NaN)
  then show ?thesis unfolding liquidityScore_def
    by (cases "orElse (liquidity_ratio m) (Fin 1)") (auto simp: jsub_def max_def)
qed

lemma liquidityScore_nonneg: "jle (Fin 0) (liquidityScore m)"
  using liquidityScore_range [of m] by auto

lemma liquidityScore_le_36:
  assumes "fieldNonNeg (liquidity_ratio m)"
  shows "jle (liquidityScore m) (Fin 36)"
proof -
  from orElse_pos [OF assms, of 1]
  have "orElse (liquidity_ratio m) (Fin 1) = PInf \<or> (\<exists>a. orElse (liquidity_ratio m) (Fin 1) = Fin a \<and> 0 < a)"
    by simp
  then show ?thesis unfolding liquidityScore_def
    by (auto simp: jsub_def max_def)
qed

subsection \<open>Bounds of the four components\<close>

text \<open>
  Claim C5, as stated, fails for the liquidity component: a liquidity ratio of 0.1 gives
  \<open>(1.2 - 0.1) * 30 = 33\<close>, above the weight 30.
\<close>

theorem liquidity_component_counterexample:
  "liquidityScore (exRow ''A'' None (Some (Fin 0.1)) None) = Fin 33
   \<and> \<not> jle (liquidityScore (exRow ''A'' None (Some (Fin 0.1)) None)) (Fin 30)"
  by (simp add: liquidityScore_def orElse_def truthy_def jsub_def exRow_def)

text \<open>
  Claim C5, amended.  For every input the leverage component is at most 40, the CDS
  component at most 20 and the volatility component at most 10.  The liquidity component
  is never negative, and it is at most 36 whenever the liquidity ratio is absent, NaN or
  not negative.
\<close>

theorem component_bounds:
  "jle (leverageScore m) (Fin 40) \<and> jle (cdsScore m) (Fin 20) \<and> jle (vixScore mk) (Fin 10)
   \<and> jle (Fin 0) (liquidityScore m)
   \<and> (fieldNonNeg (liquidity_ratio m) \<longrightarrow> jle (liquidityScore m) (Fin 36))"
  using leverageScore_le cdsScore_le vixScore_le liquidityScore_nonneg liquidityScore_le_36 by blast

theorem component_bounds_witness:
  "fieldNonNeg (liquidity_ratio (exRow ''A'' (Some (Fin 50)) (Some (Fin 0.1)) (Some (Fin 2000))))
   \<and> leverageScore (exRow ''A'' (Some (Fin 50)) (Some (Fin 0.1)) (Some (Fin 2000))) = Fin 40
   \<and> cdsScore (exRow ''A'' (Some (Fin 50)) (Some (Fin 0.1)) (Some (Fin 2000))) = Fin 20
   \<and> vixScore (exMarket (Some (Fin 90))) = Fin 10
   \<and> jle (liquidityScore (exRow ''A'' (Some (Fin 50)) (Some (Fin 0.1)) (Some (Fin 2000)))) (Fin 36)"
proof -
  have h: "fieldNonNeg (liquidity_ratio (exRow ''A'' (Some (Fin 50)) (Some (Fin 0.1)) (Some (Fin 2000))))"
    by (simp add: fieldNonNeg_def exRow_def)
  have v: "leverageScore (exRow ''A'' (Some (Fin 50)) (Some (Fin 0.1)) (Some (Fin 2000))) = Fin 40"
    "cdsScore (exRow ''A'' (Some (Fin 50)) (Some (Fin 0.1)) (Some (Fin 2000))) = Fin 20"
    "vixScore (exMarket (Some (Fin 90))) = Fin 10"
    by (simp_all add: score_eval orElse_def truthy_def exRow_def exMarket_def)
  show ?thesis
    using h v component_bounds [of "exRow ''A'' (Some (Fin 50)) (Some (Fin 0.1)) (Some (Fin 2000))"
        "exMarket (Some (Fin 90))"]
    by blast
qed

subsection \<open>Range of the risk score\<close>

lemma nodeRiskScore_upper: "nodeRiskScore m mk \<noteq> NaN \<and> jle (nodeRiskScore m mk) (Fin 100)"
  by (cases "jadd (jadd (jadd (leverageScore m) (liquidityScore m)) (cdsScore m)) (vixScore mk)")
     (simp_all add: nodeRiskScore_def Let_def isNaN_def)

lemma nodeRiskScore_range:
  assumes "fieldNonNeg (leverage_ratio m)" "fieldNonNeg (cds_spread m)" "fieldNonNeg (vix_index mk)"
  shows "\<exists>r. nodeRiskScore m mk = Fin r \<and> 0 \<le> r \<and> r \<le> 100"
proof -
  obtain l where l: "leverageScore m = Fin l" "0 \<le> l"
    using capped_range [OF orElse_pos [OF assms(1), of 15], of 40 40]
    by (auto simp: leverageScore_def)
  obtain c where c: "cdsScore m = Fin c" "0 \<le> c"
    using capped_range [OF orElse_pos [OF assms(2), of 100], of 1000 20]
    by (auto simp: cdsScore_def)
  obtain v where v: "vixScore mk = Fin v" "0 \<le> v"
    using capped_range [OF orElse_pos [OF assms(3), of 25], of 60 10]
    by (auto simp: vixScore_def)
  from liquidityScore_range [of m] show ?thesis
  proof
    assume "liquidityScore m = PInf"
    then show ?thesis using l c v by (simp add: nodeRiskScore_def Let_def isNaN_def)
  next
    assume "\<exists>q. liquidityScore m = Fin q \<and> 0 \<le> q"
    then obtain q where "liquidityScore m = Fin q" "0 \<le> q" by blast
    then show ?thesis using l c v by (simp add: nodeRiskScore_def Let_def isNaN_def min_def)
  qed
qed

lemma marketLatest_cases:
  "marketLatest market d \<in> set market \<or> vix_index (marketLatest market d) = Some (Fin 25)"
  by (auto simp: marketLatest_def split: option.splits dest: find_mem)

lemma node_riskScore:
  assumes "n \<in> set (nodes (processCsvData metrics network market))"
  shows "\<exists>m. riskScore n = nodeRiskScore m (marketLatest market (latestDate metrics))
          \<and> leverage_ratio n = leverage_ratio m \<and> cds_spread n = cds_spread m
          \<and> liquidity_ratio n = liquidity_ratio m"
  using assms by (auto simp: processCsvData_def Let_def toNode_def)

text \<open>
  Claim C4, as stated, fails: nothing bounds the score from below, so a negative leverage
  ratio gives a negative score, and a leverage ratio of minus infinity gives minus
  infinity, which the \<^verbatim>\<open>isNaN\<close> guard lets through.
\<close>

theorem risk_score_counterexample:
  "nodeRiskScore (exRow ''A'' (Some (Fin (- 400))) None None) (exMarket None) = Fin (- (2327 / 6))
   \<and> \<not> jle (Fin 0) (nodeRiskScore (exRow ''A'' (Some (Fin (- 400))) None None) (exMarket None))
   \<and> nodeRiskScore (exRow ''A'' (Some NInf) None None) (exMarket None) = NInf"
  by (simp add: score_eval orElse_def truthy_def exRow_def exMarket_def Let_def)

text \<open>
  Claim C4, amended.  The risk score of every node is never NaN and is at most 100.  When
  the row's leverage ratio and CDS spread and the volatility index of every market row
  are absent, NaN or not negative, the score is a finite number between 0 and 100, whatever
  the liquidity ratio.
\<close>

theorem risk_score_bounds:
  assumes "n \<in> set (nodes (processCsvData metrics network market))"
  shows "riskScore n \<noteq> NaN \<and> jle (riskScore n) (Fin 100)
    \<and> (fieldNonNeg (leverage_ratio n) \<and> fieldNonNeg (cds_spread n) \<and> list_all (\<lambda>mk. fieldNonNeg (vix_index mk)) market
        \<longrightarrow> (\<exists>r. riskScore n = Fin r \<and> 0 \<le> r \<and> r \<le> 100))"
proof -
  from node_riskScore [OF assms] obtain m where
    m: "riskScore n = nodeRiskScore m (marketLatest market (latestDate metrics))"
       "leverage_ratio n = leverage_ratio m" "cds_spread n = cds_spread m" by blast
  have "fieldNonNeg (vix_index (marketLatest market (latestDate metrics)))"
    if "list_all (\<lambda>mk. fieldNonNeg (vix_index mk)) market"
    using marketLatest_cases [of market "latestDate metrics"] that
    by (auto simp: list_all_iff fieldNonNeg_def)
  then show ?thesis using m nodeRiskScore_upper nodeRiskScore_range by metis
qed

theorem risk_score_bounds_witness:
  "toNode (exMarket (Some (Fin 60))) [] [] (exRow ''A'' (Some (Fin 50)) (Some NInf) None)
     \<in> set (nodes (processCsvData [exRow ''A'' (Some (Fin 50)) (Some NInf) None] [] [exMarket (Some (Fin 60))]))
   \<and> fieldNonNeg (Some (Fin 50)) \<and> fieldNonNeg None
   \<and> list_all (\<lambda>mk. fieldNonNeg (vix_index mk)) [exMarket (Some (Fin 60))]
   \<and> riskScore (toNode (exMarket (Some (Fin 60))) [] [] (exRow ''A'' (Some (Fin 50)) (Some NInf) None)) = Fin 100"
proof -
  let ?n = "toNode (exMarket (Some (Fin 60))) [] [] (exRow ''A'' (Some (Fin 50)) (Some NInf) None)"
  have h: "?n \<in> set (nodes (processCsvData [exRow ''A'' (Some (Fin 50)) (Some NInf) None] [] [exMarket (Some (Fin 60))]))"
    by (simp add: processCsvData_def latestDate_def marketLatest_def nodeVolumes_def connectionCounts_def
        exRow_def exMarket_def Let_def)
  have f: "fieldNonNeg (Some (Fin 50))" "fieldNonNeg None"
    "list_all (\<lambda>mk. fieldNonNeg (vix_index mk)) [exMarket (Some (Fin 60))]"
    by (simp_all add: fieldNonNeg_def exMarket_def)
  have v: "riskScore ?n = Fin 100"
    by (simp add: toNode_def score_eval orElse_def truthy_def exRow_def exMarket_def Let_def)
  show ?thesis using h f v risk_score_bounds [OF h] by blast
qed

section \<open>The systemic risk index\<close>

lemma orElse_finite: "fieldFinite f \<Longrightarrow> \<exists>a. orElse f (Fin d) = Fin a"
proof (cases f)
  case None
  then show ?thesis by (simp add: orElse_def)
next
  case (Some x)
  assume "fieldFinite f"
  then show ?thesis using Some by (cases x) (simp_all add: orElse_def truthy_def fieldFinite_def)
qed

lemma sum_finite:
  "list_all (\<lambda>m. fieldFinite (g m)) ms \<Longrightarrow>
   \<exists>s. foldl (\<lambda>acc curr. jadd acc (orElse (g curr) (Fin 0))) (Fin a) ms = Fin s"
proof (induction ms arbitrary: a)
  case Nil
  then show ?case by simp
next
  case (Cons m ms)
  from Cons.prems have "fieldFinite (g m)" and rest: "list_all (\<lambda>m. fieldFinite (g m)) ms" by simp_all
  then obtain b where b: "orElse (g m) (Fin 0) = Fin b"
    using orElse_finite [of "g m" 0] by blast
  from Cons.IH [OF rest, of "a + b"] show ?case by (simp add: b)
qed

lemma avg_score_finite:
  "0 < c \<Longrightarrow> 0 < n \<Longrightarrow> \<exists>r. jmin (jdiv (jdiv (Fin s) (Fin n)) (Fin c)) (Fin 1) = Fin r"
  by simp

lemma vix_score_cases:
  "x \<noteq> NaN \<Longrightarrow> jmin (jdiv x (Fin 50)) (Fin 1) = NInf \<or> (\<exists>r. jmin (jdiv x (Fin 50)) (Fin 1) = Fin r)"
  by (cases x) simp_all

lemma clamp_unit: "b = NInf \<or> (\<exists>r. b = Fin r) \<Longrightarrow> \<exists>r. jmax (Fin 0) (jmin (Fin 1) b) = Fin r \<and> 0 \<le> r \<and> r \<le> 1"
  by (auto simp: min_def max_def)

lemma weighted_sum_cases:
  assumes "V = NInf \<or> (\<exists>v. V = Fin v)"
  shows "jadd (jadd (jadd (jmul (Fin l) (Fin (4 / 10))) (jmul (Fin c) (Fin (4 / 10)))) (jmul V (Fin (2 / 10))))
              (jsub (jmul (Fin x) (Fin p)) (Fin q)) = NInf
         \<or> (\<exists>r. jadd (jadd (jadd (jmul (Fin l) (Fin (4 / 10))) (jmul (Fin c) (Fin (4 / 10)))) (jmul V (Fin (2 / 10))))
              (jsub (jmul (Fin x) (Fin p)) (Fin q)) = Fin r)"
  using assms by (auto simp: jsub_def)

text \<open>
  For every draw of the jitter the index is a number between 0 and 1 as long as no
  leverage ratio and no CDS spread is an infinity; with no row at all it is 0.62.
\<close>

lemma stable_risk_in_unit_interval:
  assumes finl: "list_all (\<lambda>m. fieldFinite (leverage_ratio m)) currentMetrics"
    and finc: "list_all (\<lambda>m. fieldFinite (cds_spread m)) currentMetrics"
  shows "\<exists>r. calculateStableRisk (Fin x) currentMetrics mk = Fin r \<and> 0 \<le> r \<and> r \<le> 1"
proof (cases "length currentMetrics = 0")
  case True
  then have "calculateStableRisk (Fin x) currentMetrics mk = Fin 0.62" by (simp add: calculateStableRisk_def)
  moreover have "(0::real) \<le> 0.62 \<and> (0.62::real) \<le> 1" by simp
  ultimately show ?thesis by blast
next
  case False
  then have npos: "0 < real (length currentMetrics)" by simp
  define L where "L = jmin (jdiv (jdiv (foldl (\<lambda>acc curr. jadd acc (orElse (leverage_ratio curr) (Fin 0))) (Fin 0) currentMetrics)
       (Fin (real (length currentMetrics)))) (Fin 30)) (Fin 1)"
  define C where "C = jmin (jdiv (jdiv (foldl (\<lambda>acc curr. jadd acc (orElse (cds_spread curr) (Fin 0))) (Fin 0) currentMetrics)
       (Fin (real (length currentMetrics)))) (Fin 600)) (Fin 1)"
  define V where "V = jmin (jdiv (orElse (vix_index mk) (Fin 25)) (Fin 50)) (Fin 1)"
  have unf: "calculateStableRisk (Fin x) currentMetrics mk =
      jmax (Fin 0) (jmin (Fin 1)
        (jadd (jadd (jadd (jmul L (Fin (4 / 10))) (jmul C (Fin (4 / 10)))) (jmul V (Fin (2 / 10))))
              (jsub (jmul (Fin x) (Fin 0.0024)) (Fin 0.0012))))"
    unfolding calculateStableRisk_def Let_def L_def C_def V_def using False by simp
  obtain sl where sl: "foldl (\<lambda>acc curr. jadd acc (orElse (leverage_ratio curr) (Fin 0))) (Fin 0) currentMetrics = Fin sl"
    using sum_finite [OF finl, of 0] by blast
  obtain sc where sc: "foldl (\<lambda>acc curr. jadd acc (orElse (cds_spread curr) (Fin 0))) (Fin 0) currentMetrics = Fin sc"
    using sum_finite [OF finc, of 0] by blast
  obtain l where l: "L = Fin l" unfolding L_def sl using avg_score_finite [OF _ npos, of 30 sl] by auto
  obtain c where c: "C = Fin c" unfolding C_def sc using avg_score_finite [OF _ npos, of 600 sc] by auto
  have "orElse (vix_index mk) (Fin 25) \<noteq> NaN" by (simp add: orElse_not_NaN)
  then have v: "V = NInf \<or> (\<exists>r. V = Fin r)" unfolding V_def by (rule vix_score_cases)
  show ?thesis unfolding unf l c
    by (rule clamp_unit, rule weighted_sum_cases, rule v)
qed

lemma stable_risk_empty: "calculateStableRisk rnd [] mk = Fin 0.62"
  by (simp add: calculateStableRisk_def)

text \<open>
  Claim C6.  The index is not always in the unit interval: when the leverage ratios of the
  rows at the reference date hold both infinities, their sum is NaN, \<^verbatim>\<open>Math.min\<close> and
  \<^verbatim>\<open>Math.max\<close> hand NaN on, and the index is NaN for every jitter draw and every market
  snapshot.
\<close>

theorem stable_risk_nan:
  "calculateStableRisk rnd [exRow ''A'' (Some PInf) None None, exRow ''B'' (Some NInf) None None] mk = NaN"
  by (simp add: calculateStableRisk_def orElse_def truthy_def exRow_def Let_def)

section \<open>The network accumulators\<close>

text \<open>
  An id that is a property name of \<^verbatim>\<open>Object.prototype\<close> is not counted as a number: with
  no row at all the institution \<open>constructor\<close> gets the centrality NaN, and a row between
  \<open>B\<close> and \<open>__proto__\<close> leaves \<open>B\<close> as the only key, with centrality 1.
\<close>

lemma prototype_named_ids:
  "map centrality (nodes (processCsvData [exRow ''constructor'' None None None] [] [])) = [NaN]
   \<and> map centrality (nodes (processCsvData [exRow ''B'' None None None] [exEdge ''B'' ''__proto__'' 10] []))
       = [Fin 1]"
  by (simp add: normalise_eval)

lemma snd_foldl_addEdge:
  "snd (foldl (addEdge d) (nv, cc) es) = foldl (\<lambda>r k. bump k (Fin 1) r) cc (endpoints d es)"
proof (induction es arbitrary: nv cc)
  case Nil
  then show ?case by (simp add: endpoints_def)
next
  case (Cons e es)
  show ?case
  proof (cases "ExposureNetwork.date e = d")
    case True
    then have "addEdge d (nv, cc) e =
        (bump (creditor_id e) (orElse (exposure_amount e) (Fin 0))
             (bump (debtor_id e) (orElse (exposure_amount e) (Fin 0)) nv),
         bump (creditor_id e) (Fin 1) (bump (debtor_id e) (Fin 1) cc))"
      by (simp add: addEdge_def)
    moreover have "endpoints d (e # es) = debtor_id e # creditor_id e # endpoints d es"
      using True by (simp add: endpoints_def)
    ultimately show ?thesis using Cons.IH by simp
  next
    case False
    then have "addEdge d (nv, cc) e = (nv, cc)" by (simp add: addEdge_def)
    moreover have "endpoints d (e # es) = endpoints d es" using False by (simp add: endpoints_def)
    ultimately show ?thesis using Cons.IH by simp
  qed
qed

text \<open>The entry of one id: other ids leave it alone, its own bump adds one.\<close>

lemma proto_in_names: "''__proto__'' \<in> set objectPrototypeNames"
  by (simp add: objectPrototypeNames_def)

lemma bump_other: "k \<noteq> a \<Longrightarrow> map_of (bump k x r) a = map_of r a"
  by (simp add: bump_def setProp_def update_conv')

lemma bump_count:
  assumes "a \<notin> set objectPrototypeNames" and "map_of r a = countEntry c"
  shows "map_of (bump a (Fin 1) r) a = countEntry (Suc c)"
proof -
  have np: "a \<noteq> ''__proto__''" using assms(1) proto_in_names by auto
  have "getProp r a = countEntry c" using assms by (simp add: getProp_def split: option.splits)
  then have "jplus (orZero (getProp r a)) (Fin 1) = Num (Fin (real (Suc c)))"
    by (simp add: countEntry_def orZero_def jplus_def truthy_def)
  then show ?thesis using np by (simp add: bump_def setProp_def update_conv' countEntry_def)
qed

lemma foldl_bump_count:
  "a \<notin> set objectPrototypeNames \<Longrightarrow> map_of r a = countEntry c \<Longrightarrow>
   map_of (foldl (\<lambda>r k. bump k (Fin 1) r) r xs) a = countEntry (c + count_list xs a)"
proof (induction xs arbitrary: r c)
  case Nil
  then show ?case by simp
next
  case (Cons x xs)
  show ?case
  proof (cases "x = a")
    case True
    from Cons.IH [OF Cons.prems(1) bump_count [OF Cons.prems]] True show ?thesis by simp
  next
    case False
    then have "map_of (bump x (Fin 1) r) a = countEntry c"
      using Cons.prems(2) by (simp add: bump_other)
    from Cons.IH [OF Cons.prems(1) this] False show ?thesis by simp
  qed
qed

lemma connectionCounts_entry:
  assumes "a \<notin> set objectPrototypeNames"
  shows "map_of (connectionCounts d network) a = countEntry (connections d network a)"
proof -
  have "map_of [] a = countEntry 0" by (simp add: countEntry_def)
  from foldl_bump_count [OF assms this, of "endpoints d network"]
  show ?thesis by (simp add: connectionCounts_def snd_foldl_addEdge connections_def)
qed

text \<open>The keys: every bumped id but \<^verbatim>\<open>__proto__\<close>, each once.\<close>

lemma bump_keys:
  "map fst (bump k x r) =
     (if k = ''__proto__'' \<or> k \<in> set (map fst r) then map fst r else map fst r @ [k])"
  by (simp add: bump_def setProp_def update_keys)

lemma foldl_bump_keys:
  "distinct (map fst r) \<Longrightarrow>
   distinct (map fst (foldl (\<lambda>r k. bump k (f k) r) r xs))
   \<and> set (map fst (foldl (\<lambda>r k. bump k (f k) r) r xs))
       = set (map fst r) \<union> (set xs - {''__proto__''})"
proof (induction xs arbitrary: r)
  case Nil
  then show ?case by simp
next
  case (Cons x xs)
  have d: "distinct (map fst (bump x (f x) r))"
    using Cons.prems by (simp add: bump_keys)
  have k: "set (map fst (bump x (f x) r)) = set (map fst r) \<union> ({x} - {''__proto__''})"
    by (auto simp: bump_keys)
  from Cons.IH [OF d] k show ?case by auto
qed

lemma connectionCounts_length: "length (connectionCounts d network) = connectedCount d network"
proof -
  let ?r = "connectionCounts d network"
  have r: "?r = foldl (\<lambda>r k. bump k (Fin 1) r) [] (endpoints d network)"
    by (simp add: connectionCounts_def snd_foldl_addEdge)
  have "distinct (map fst ?r) \<and> set (map fst ?r) = set (map fst []) \<union> (set (endpoints d network) - {''__proto__''})"
    unfolding r using foldl_bump_keys [of "[]" "\<lambda>k. Fin 1" "endpoints d network"] by simp
  then have "length (map fst ?r) = card (set (endpoints d network) - {''__proto__''})"
    using distinct_card [of "map fst ?r"] by simp
  moreover have "set (endpoints d network) - {''__proto__''}
      = set (filter (\<lambda>k. k \<noteq> ''__proto__'') (endpoints d network))" by auto
  ultimately show ?thesis by (simp add: connectedCount_def length_remdups_card_conv)
qed

lemma nodeCentrality_value:
  assumes "a \<notin> set objectPrototypeNames"
  shows "nodeCentrality (connectionCounts d network) a
     = jdiv (Fin (real (connections d network a))) (jmax (Fin 1) (Fin (real (connectedCount d network))))"
proof -
  have "getProp (connectionCounts d network) a = countEntry (connections d network a)"
    using assms connectionCounts_entry [OF assms, of d network]
    by (simp add: getProp_def split: option.splits)
  then have "toNumber (orZero (getProp (connectionCounts d network) a)) = Fin (real (connections d network a))"
    by (simp add: countEntry_def orZero_def toNumber_def truthy_def)
  then show ?thesis by (simp add: nodeCentrality_def connectionCounts_length)
qed

lemma count_endpoints:
  "count_list (concat (map (\<lambda>e. [debtor_id e, creditor_id e]) es)) i
     = length (filter (\<lambda>e. debtor_id e = i) es) + length (filter (\<lambda>e. creditor_id e = i) es)"
  by (induction es) auto

lemma count_incident:
  "list_all (\<lambda>e. creditor_id e \<noteq> debtor_id e) es \<Longrightarrow>
   length (filter (\<lambda>e. debtor_id e = i) es) + length (filter (\<lambda>e. creditor_id e = i) es)
     = length (filter (\<lambda>e. debtor_id e = i \<or> creditor_id e = i) es)"
  by (induction es) auto

lemma simple_incident_le:
  assumes noloop: "list_all (\<lambda>e. creditor_id e \<noteq> debtor_id e) es"
    and dist: "distinct (map (\<lambda>e. {creditor_id e, debtor_id e}) es)"
    and ip: "i \<noteq> p"
  shows "length (filter (\<lambda>e. debtor_id e = i \<or> creditor_id e = i) es)
           \<le> card (set (concat (map (\<lambda>e. [debtor_id e, creditor_id e]) es)) - {p})"
proof (cases "filter (\<lambda>e. debtor_id e = i \<or> creditor_id e = i) es = []")
  case True
  then show ?thesis by simp
next
  case False
  let ?inc = "filter (\<lambda>e. debtor_id e = i \<or> creditor_id e = i) es"
  let ?other = "\<lambda>e. if debtor_id e = i then creditor_id e else debtor_id e"
  let ?E = "set (concat (map (\<lambda>e. [debtor_id e, creditor_id e]) es))"
  have "distinct (map (\<lambda>e. {creditor_id e, debtor_id e}) ?inc)"
    using dist by (rule distinct_map_filter)
  moreover have "map (\<lambda>e. {creditor_id e, debtor_id e}) ?inc = map ((\<lambda>x. {i, x}) \<circ> ?other) ?inc"
    by (rule map_cong) auto
  ultimately have "distinct (map ((\<lambda>x. {i, x}) \<circ> ?other) ?inc)" by simp
  then have "distinct ?inc" and "inj_on ((\<lambda>x. {i, x}) \<circ> ?other) (set ?inc)"
    by (simp_all add: distinct_map)
  then have "distinct (map ?other ?inc)"
    by (simp add: distinct_map inj_on_imageI2)
  then have len: "length ?inc = card (set (map ?other ?inc))"
    using distinct_card [of "map ?other ?inc"] by simp
  have noself: "\<And>e. e \<in> set es \<Longrightarrow> creditor_id e \<noteq> debtor_id e"
    using noloop by (simp add: list_all_iff)
  have sub: "set (map ?other ?inc) \<subseteq> ?E - {i}"
    using noself by auto
  obtain e0 where "e0 \<in> set ?inc" using False by (cases ?inc) auto
  then have iE: "i \<in> ?E" by auto
  have "card (set (map ?other ?inc)) \<le> card (?E - {i})"
    using sub by (simp add: card_mono)
  also have "\<dots> = card ?E - 1" using iE by simp
  also have "\<dots> \<le> card (?E - {p})" by (simp add: card_Diff_singleton_if)
  finally show ?thesis using len by simp
qed

lemma simple_connections_le:
  assumes "simpleGraph d network" and "i \<noteq> ''__proto__''"
  shows "connections d network i \<le> connectedCount d network"
proof -
  let ?es = "filter (\<lambda>e. ExposureNetwork.date e = d) network"
  from assms(1) have noloop: "list_all (\<lambda>e. creditor_id e \<noteq> debtor_id e) ?es"
    and dist: "distinct (map (\<lambda>e. {creditor_id e, debtor_id e}) ?es)"
    by (simp_all add: simpleGraph_def Let_def)
  have "connections d network i = length (filter (\<lambda>e. debtor_id e = i \<or> creditor_id e = i) ?es)"
    unfolding connections_def endpoints_def count_endpoints by (rule count_incident [OF noloop])
  also have "\<dots> \<le> card (set (concat (map (\<lambda>e. [debtor_id e, creditor_id e]) ?es)) - {''__proto__''})"
    by (rule simple_incident_le [OF noloop dist assms(2)])
  also have "\<dots> = connectedCount d network"
  proof -
    have "set (concat (map (\<lambda>e. [debtor_id e, creditor_id e]) ?es)) - {''__proto__''}
        = set (filter (\<lambda>k. k \<noteq> ''__proto__'') (endpoints d network))"
      by (auto simp: endpoints_def)
    then show ?thesis by (simp add: connectedCount_def length_remdups_card_conv)
  qed
  finally show ?thesis .
qed

lemma node_centrality:
  assumes "n \<in> set (nodes (processCsvData metrics network market))"
  shows "centrality n = nodeCentrality (connectionCounts (latestDate metrics) network) (institution_id n)"
  using assms by (auto simp: processCsvData_def Let_def toNode_def)

lemma quotient_nonneg: "\<exists>v. jdiv (Fin (real c)) (jmax (Fin 1) (Fin (real k))) = Fin v \<and> 0 \<le> v"
  by (simp add: max_def)

lemma quotient_le_1:
  "c \<le> k \<Longrightarrow> \<exists>v. jdiv (Fin (real c)) (jmax (Fin 1) (Fin (real k))) = Fin v \<and> 0 \<le> v \<and> v \<le> 1"
  by (simp add: max_def)

subsection \<open>Centrality\<close>

text \<open>
  Claim C7, as stated, fails: \<open>A\<close> exchanges exposures with \<open>B\<close> and with \<open>C\<close>, which
  gives it four connections among three connected institutions, and its centrality is 4/3.
\<close>

theorem centrality_counterexample:
  "map centrality (nodes (processCsvData [exRow ''A'' None None None]
      [exEdge ''A'' ''B'' 10, exEdge ''B'' ''A'' 10, exEdge ''A'' ''C'' 10, exEdge ''C'' ''A'' 10] []))
   = [Fin (4 / 3)]
   \<and> map (\<lambda>n. jle (centrality n) (Fin 1)) (nodes (processCsvData [exRow ''A'' None None None]
      [exEdge ''A'' ''B'' 10, exEdge ''B'' ''A'' 10, exEdge ''A'' ''C'' 10, exEdge ''C'' ''A'' 10] []))
   = [False]"
  by (simp add: normalise_eval)

text \<open>
  Claim C7, amended.  For a node whose id is not a property name of \<^verbatim>\<open>Object.prototype\<close>
  the centrality is the quotient of the number of its connections (one for each end of a
  row dated at the reference date at which its id stands) by the number of distinct ids,
  other than \<^verbatim>\<open>__proto__\<close>, at the ends of those rows, or by 1 if there is none: a
  finite number that is not negative, and 0 for a node without connections.  It is at
  most 1 when the rows at the reference date hold no self-loop and no two rows joining the
  same pair of institutions.
\<close>

theorem centrality_value:
  assumes "n \<in> set (nodes (processCsvData metrics network market))"
    and "institution_id n \<notin> set objectPrototypeNames"
  shows "centrality n = jdiv (Fin (real (connections (latestDate metrics) network (institution_id n))))
                             (jmax (Fin 1) (Fin (real (connectedCount (latestDate metrics) network))))
    \<and> (\<exists>v. centrality n = Fin v \<and> 0 \<le> v)
    \<and> (connections (latestDate metrics) network (institution_id n) = 0 \<longrightarrow> centrality n = Fin 0)
    \<and> (simpleGraph (latestDate metrics) network \<longrightarrow> (\<exists>v. centrality n = Fin v \<and> 0 \<le> v \<and> v \<le> 1))"
proof -
  let ?d = "latestDate metrics"
  let ?c = "connections ?d network (institution_id n)"
  let ?k = "connectedCount ?d network"
  have v: "centrality n = jdiv (Fin (real ?c)) (jmax (Fin 1) (Fin (real ?k)))"
    using node_centrality [OF assms(1)] nodeCentrality_value [OF assms(2)] by simp
  have p: "\<exists>v. centrality n = Fin v \<and> 0 \<le> v"
    unfolding v by (rule quotient_nonneg)
  have z: "?c = 0 \<longrightarrow> centrality n = Fin 0" using v by (simp add: max_def)
  have s: "\<exists>v. centrality n = Fin v \<and> 0 \<le> v \<and> v \<le> 1" if "simpleGraph ?d network"
  proof -
    have "institution_id n \<noteq> ''__proto__''" using assms(2) proto_in_names by auto
    from simple_connections_le [OF that this] show ?thesis
      unfolding v by (rule quotient_le_1)
  qed
  from v p z s show ?thesis by blast
qed


theorem centrality_value_witness:
  "toNode (marketLatest [] ''2024-01-01'') (nodeVolumes ''2024-01-01'' [exEdge ''A'' ''B'' 10, exEdge ''A'' ''C'' 10])
      (connectionCounts ''2024-01-01'' [exEdge ''A'' ''B'' 10, exEdge ''A'' ''C'' 10]) (exRow ''A'' None None None)
     \<in> set (nodes (processCsvData [exRow ''A'' None None None] [exEdge ''A'' ''B'' 10, exEdge ''A'' ''C'' 10] []))
   \<and> ''A'' \<notin> set objectPrototypeNames
   \<and> simpleGraph ''2024-01-01'' [exEdge ''A'' ''B'' 10, exEdge ''A'' ''C'' 10]
   \<and> connections ''2024-01-01'' [exEdge ''A'' ''B'' 10, exEdge ''A'' ''C'' 10] ''A'' = 2
   \<and> connectedCount ''2024-01-01'' [exEdge ''A'' ''B'' 10, exEdge ''A'' ''C'' 10] = 3
   \<and> centrality (toNode (marketLatest [] ''2024-01-01'') (nodeVolumes ''2024-01-01'' [exEdge ''A'' ''B'' 10, exEdge ''A'' ''C'' 10])
      (connectionCounts ''2024-01-01'' [exEdge ''A'' ''B'' 10, exEdge ''A'' ''C'' 10]) (exRow ''A'' None None None))
     = Fin (2 / 3)"
proof -
  let ?net = "[exEdge ''A'' ''B'' 10, exEdge ''A'' ''C'' 10]"
  let ?n = "toNode (marketLatest [] ''2024-01-01'') (nodeVolumes ''2024-01-01'' ?net)
      (connectionCounts ''2024-01-01'' ?net) (exRow ''A'' None None None)"
  have d: "latestDate [exRow ''A'' None None None] = ''2024-01-01''"
    by (simp add: latestDate_def exRow_def)
  have h: "?n \<in> set (nodes (processCsvData [exRow ''A'' None None None] ?net []))"
    unfolding processCsvData_def Let_def d by (simp add: exRow_def)
  have a: "''A'' \<notin> set objectPrototypeNames" by (simp add: objectPrototypeNames_def)
  have s: "simpleGraph ''2024-01-01'' ?net"
    by (simp add: simpleGraph_def exEdge_def Let_def doubleton_eq_iff)
  have c: "connections ''2024-01-01'' ?net ''A'' = 2" "connectedCount ''2024-01-01'' ?net = 3"
    by (simp_all add: connections_def connectedCount_def endpoints_def exEdge_def)
  have i: "institution_id ?n = ''A''" by (simp add: toNode_def exRow_def)
  have a': "institution_id ?n \<notin> set objectPrototypeNames" unfolding i by (rule a)
  from centrality_value [OF h a'] have "centrality ?n = Fin (2 / 3)"
    unfolding d i c by simp
  then show ?thesis using h a s c by blast
qed

subsection \<open>Self-loop rows\<close>











end
